theory Spec2Isabelle
  imports Complex_Main "HOL-Library.Sublist"
begin

section \<open>boltons.ecoutils: the argument quoter\<close>

text \<open>
  The model follows \<^verbatim>\<open>src/boltons/ecoutils.py\<close>. Python strings are lists of
  characters; the characters the quoting algorithms single out are named once.
  Exceptions are values: a function that can raise returns \<open>exn + 'a\<close>, with \<open>Inl\<close>
  for the exception. Only subclasses of \<^verbatim>\<open>Exception\<close> are modelled, since those are
  what the source's \<^verbatim>\<open>except Exception\<close> clauses catch.
\<close>

abbreviation sq :: char where "sq \<equiv> CHR 0x27"
abbreviation dq :: char where "dq \<equiv> CHR 0x22"
abbreviation bslash :: char where "bslash \<equiv> CHR 0x5C"
abbreviation tab :: char where "tab \<equiv> CHR 0x09"

datatype exn =
    TypeError "string list"   \<comment> \<open>unexpected keyword arguments, with the offending keys\<close>
  | ValueError string         \<comment> \<open>unrecognised quoting style, with the style\<close>
  | KeyError string
  | OSError
  | ImportError
  | AttributeError
  | NotImplementedError
  | OtherException

subsection \<open>String helpers of the Python runtime\<close>

text \<open>\<^verbatim>\<open>sep.join(xs)\<close>.\<close>

fun str_join :: "string \<Rightarrow> string list \<Rightarrow> string" where
  "str_join sep [] = []"
| "str_join sep [x] = x"
| "str_join sep (x # y # ys) = x @ sep @ str_join sep (y # ys)"

text \<open>
  \<^verbatim>\<open>s.replace(old, new)\<close>: a left-to-right scan that replaces every non-overlapping
  occurrence of \<open>old\<close>; with an empty \<open>old\<close>, \<open>new\<close> is inserted around every character.
\<close>

function str_replace :: "string \<Rightarrow> string \<Rightarrow> string \<Rightarrow> string" where
  "str_replace old new [] = (if old = [] then new else [])"
| "str_replace old new (c # cs) =
     (if old = [] then new @ c # str_replace old new cs
      else if take (length old) (c # cs) = old
        then new @ str_replace old new (drop (length old) (c # cs))
      else c # str_replace old new cs)"
  by pat_completeness auto
termination
  by (relation "measure (\<lambda>(old, new, s). length s)") (auto simp: Suc_le_eq)

subsection \<open>The POSIX quoter, \<^verbatim>\<open>_args2sh\<close>\<close>

text \<open>
  \<^verbatim>\<open>_find_sh_unsafe = re.compile(r'[^a-zA-Z0-9_@%+=:,./-]').search\<close>: the first
  character outside the safe set, or \<^verbatim>\<open>None\<close>.
\<close>

definition sh_safe_char :: "char \<Rightarrow> bool" where
  "sh_safe_char c \<longleftrightarrow>
     (let n = (of_char c :: nat) in
        (97 \<le> n \<and> n \<le> 122) \<or> (65 \<le> n \<and> n \<le> 90) \<or> (48 \<le> n \<and> n \<le> 57)
        \<or> c \<in> set ''_@%+=:,./-'')"

definition find_sh_unsafe :: "string \<Rightarrow> char option" where
  "find_sh_unsafe arg = find (\<lambda>c. \<not> sh_safe_char c) arg"

text \<open>The replacement text of line 396, \<^verbatim>\<open>"'\"'\"'"\<close>.\<close>

definition sh_quote_repl :: string where
  "sh_quote_repl = [sq, dq, sq, dq, sq]"

text \<open>The \<^verbatim>\<open>for arg in args\<close> loop of \<^verbatim>\<open>_args2sh\<close>, with \<open>ret_list\<close> as accumulator.\<close>

fun args2sh_loop :: "string list \<Rightarrow> string list \<Rightarrow> string list" where
  "args2sh_loop [] ret_list = ret_list"
| "args2sh_loop (arg # args) ret_list =
     (if arg = [] then args2sh_loop args (ret_list @ [[sq, sq]])
      else if find_sh_unsafe arg = None then args2sh_loop args (ret_list @ [arg])
      else args2sh_loop args (ret_list @ [[sq] @ str_replace [sq] sh_quote_repl arg @ [sq]]))"

text \<open>The parameter \<open>sep\<close> is accepted and not used: the join is on a single space.\<close>

definition args2sh :: "string list \<Rightarrow> string \<Rightarrow> string" where
  "args2sh args sep = str_join '' '' (args2sh_loop args [])"

subsection \<open>The Windows quoter, \<^verbatim>\<open>_args2cmd\<close>\<close>

text \<open>
  \<open>result\<close> is a list of string pieces, joined at the end; \<open>bs_buf\<close> is the list of
  backslashes seen and not yet written. \<open>list_extend\<close> appends each backslash as its own piece.
\<close>

definition list_extend :: "string list \<Rightarrow> string \<Rightarrow> string list" where
  "list_extend result bs_buf = result @ map (\<lambda>b. [b]) bs_buf"

text \<open>The inner loop \<^verbatim>\<open>for c in arg\<close> on the pair \<open>(result, bs_buf)\<close>.\<close>

fun cmd_chars :: "string \<Rightarrow> string list \<times> string \<Rightarrow> string list \<times> string" where
  "cmd_chars [] st = st"
| "cmd_chars (c # cs) (result, bs_buf) =
     (if c = bslash then cmd_chars cs (result, bs_buf @ [c])
      else if c = dq then
        cmd_chars cs (result @ [replicate (length bs_buf * 2) bslash] @ [[bslash, dq]], [])
      else
        cmd_chars cs ((if bs_buf \<noteq> [] then list_extend result bs_buf else result) @ [[c]], []))"

text \<open>The body of the outer loop \<^verbatim>\<open>for arg in args\<close>.\<close>

definition needquote :: "string \<Rightarrow> bool" where
  "needquote arg \<longleftrightarrow> CHR '' '' \<in> set arg \<or> tab \<in> set arg \<or> arg = []"

definition cmd_arg :: "string list \<Rightarrow> string \<Rightarrow> string list" where
  "cmd_arg result arg =
     (let result = (if result \<noteq> [] then result @ ['' ''] else result);
          result = (if needquote arg then result @ [[dq]] else result);
          (result, bs_buf) = cmd_chars arg (result, []);
          result = (if bs_buf \<noteq> [] then list_extend result bs_buf else result)
      in if needquote arg then list_extend result bs_buf @ [[dq]] else result)"

fun args2cmd_loop :: "string list \<Rightarrow> string list \<Rightarrow> string list" where
  "args2cmd_loop [] result = result"
| "args2cmd_loop (arg # args) result = args2cmd_loop args (cmd_arg result arg)"

definition args2cmd :: "string list \<Rightarrow> string \<Rightarrow> string" where
  "args2cmd args sep = concat (args2cmd_loop args [])"

text \<open>
  What the inner loop writes for the characters \<open>cs\<close> when it starts with nothing
  written and no backslash pending.
\<close>

definition cmd_body :: "string \<Rightarrow> string" where
  "cmd_body cs = concat (fst (cmd_chars cs ([], [])))"

subsection \<open>Style selection, \<^verbatim>\<open>_escape_shell_args\<close>\<close>

text \<open>
  \<open>style\<close> is \<^verbatim>\<open>None\<close> or a string; \<^verbatim>\<open>not style\<close> holds for \<^verbatim>\<open>None\<close> and for the
  empty string. \<open>platform\<close> is \<^verbatim>\<open>sys.platform\<close>.
\<close>

definition default_style :: "string \<Rightarrow> string" where
  "default_style platform = (if platform = ''win32'' then ''cmd'' else ''sh'')"

definition escape_shell_args ::
    "string \<Rightarrow> string list \<Rightarrow> string \<Rightarrow> string option \<Rightarrow> exn + string" where
  "escape_shell_args platform args sep style =
     (let style = (case style of
                     None \<Rightarrow> default_style platform
                   | Some st \<Rightarrow> if st = [] then default_style platform else st)
      in if style = ''sh'' then Inr (args2sh args sep)
         else if style = ''cmd'' then Inr (args2cmd args sep)
         else Inl (ValueError style))"

subsection \<open>Reference tokenizers\<close>

text \<open>
  The round-trip properties of the specification speak of the shells' tokenizers, which
  are no part of the repository. The two functions below are reference models written
  from the quoting conventions the specification cites; they are only the yardstick the
  quoters' output is measured against.

  \<open>sh_split\<close> follows the quoting rules of the POSIX shell: blanks separate words, single
  quotes keep every character, double quotes keep every character but let a backslash
  escape \<^verbatim>\<open>$\<close>, \<^verbatim>\<open>`\<close>, \<^verbatim>\<open>"\<close>, \<^verbatim>\<open>\\<close> and the newline, and an unquoted backslash
  keeps the next character. The model is conservative: it answers \<open>None\<close> on an
  unterminated quotation and wherever the shell would do more than split words (an
  operator, an expansion, a comment, a pattern character outside single quotes).
\<close>

datatype sh_mode = Unquoted | InSingle | InDouble

definition sh_word :: "string option \<Rightarrow> string" where
  "sh_word cur = (case cur of None \<Rightarrow> [] | Some w \<Rightarrow> w)"

definition sh_blank :: "char \<Rightarrow> bool" where
  "sh_blank c \<longleftrightarrow> c = CHR '' '' \<or> c = tab"

definition sh_meta :: "char \<Rightarrow> bool" where
  "sh_meta c \<longleftrightarrow> c \<in> set ''|&;<>()$`*?[#~!{}'' \<or> c = CHR 0x0A"

fun sh_tok :: "sh_mode \<Rightarrow> string option \<Rightarrow> string \<Rightarrow> string list option" where
  "sh_tok Unquoted cur [] = Some (case cur of None \<Rightarrow> [] | Some w \<Rightarrow> [w])"
| "sh_tok InSingle cur [] = None"
| "sh_tok InDouble cur [] = None"
| "sh_tok Unquoted cur (c # cs) =
     (if c = sq then sh_tok InSingle (Some (sh_word cur)) cs
      else if c = dq then sh_tok InDouble (Some (sh_word cur)) cs
      else if c = bslash then
        (case cs of
           [] \<Rightarrow> None
         | d # ds \<Rightarrow> if d = CHR 0x0A then sh_tok Unquoted cur ds
                     else sh_tok Unquoted (Some (sh_word cur @ [d])) ds)
      else if sh_blank c then
        (case cur of
           None \<Rightarrow> sh_tok Unquoted None cs
         | Some w \<Rightarrow> map_option ((#) w) (sh_tok Unquoted None cs))
      else if sh_meta c then None
      else sh_tok Unquoted (Some (sh_word cur @ [c])) cs)"
| "sh_tok InSingle cur (c # cs) =
     (if c = sq then sh_tok Unquoted cur cs
      else sh_tok InSingle (Some (sh_word cur @ [c])) cs)"
| "sh_tok InDouble cur (c # cs) =
     (if c = dq then sh_tok Unquoted cur cs
      else if c = bslash then
        (case cs of
           [] \<Rightarrow> None
         | d # ds \<Rightarrow> if d = CHR 0x0A then sh_tok InDouble cur ds
                     else if d \<in> set [CHR ''$'', CHR 0x60, dq, bslash]
                       then sh_tok InDouble (Some (sh_word cur @ [d])) ds
                     else sh_tok InDouble (Some (sh_word cur @ [c, d])) ds)
      else if c = CHR ''$'' \<or> c = CHR 0x60 then None
      else sh_tok InDouble (Some (sh_word cur @ [c])) cs)"

definition sh_split :: "string \<Rightarrow> string list option" where
  "sh_split s = sh_tok Unquoted None s"

text \<open>
  \<open>cmd_split\<close> follows the backslash and quote convention of the Windows command-line
  parser: a run of \<open>n\<close> backslashes before a double quote yields \<open>n div 2\<close> backslashes,
  and the quote toggles quoting when \<open>n\<close> is even and is a literal quote when \<open>n\<close> is odd;
  backslashes not before a quote are literal; a space or tab outside quotes ends the
  argument. The state is the quoting flag, the argument under construction (\<open>None\<close>
  before its first character) and the length of the pending backslash run.
\<close>

definition cmd_flush :: "string option \<Rightarrow> nat \<Rightarrow> string option" where
  "cmd_flush cur n = (if n = 0 then cur else Some (sh_word cur @ replicate n bslash))"

fun cmd_tok :: "bool \<Rightarrow> string option \<Rightarrow> nat \<Rightarrow> string \<Rightarrow> string list" where
  "cmd_tok q cur n [] = (case cmd_flush cur n of None \<Rightarrow> [] | Some w \<Rightarrow> [w])"
| "cmd_tok q cur n (c # cs) =
     (if c = bslash then cmd_tok q cur (Suc n) cs
      else if c = dq then
        (if even n
         then cmd_tok (\<not> q) (Some (sh_word cur @ replicate (n div 2) bslash)) 0 cs
         else cmd_tok q (Some (sh_word cur @ replicate (n div 2) bslash @ [dq])) 0 cs)
      else if (c = CHR '' '' \<or> c = tab) \<and> \<not> q then
        (case cmd_flush cur n of
           None \<Rightarrow> cmd_tok q None 0 cs
         | Some w \<Rightarrow> w # cmd_tok q None 0 cs)
      else cmd_tok q (Some (sh_word cur @ replicate n bslash @ [c])) 0 cs)"

definition cmd_split :: "string \<Rightarrow> string list" where
  "cmd_split s = cmd_tok False None 0 s"

section \<open>boltons.ecoutils: the profile builder\<close>

subsection \<open>Python values and dictionaries\<close>

text \<open>
  The profile is a JSON-like value. A dictionary is an association list in insertion
  order with one entry per key; \<open>dict_set\<close> is \<^verbatim>\<open>d[k] = v\<close>, which overwrites in place
  or appends. The float of \<^verbatim>\<open>time_utc_offset\<close> is carried as a real number.
\<close>

datatype pyval =
    PNone
  | PBool bool
  | PInt int
  | PFloat real
  | PStr string
  | PList "pyval list"
  | PDict "(string \<times> pyval) list"

type_synonym pydict = "(string \<times> pyval) list"

fun dict_set :: "string \<Rightarrow> pyval \<Rightarrow> pydict \<Rightarrow> pydict" where
  "dict_set k v [] = [(k, v)]"
| "dict_set k v ((k', v') # d) =
     (if k' = k then (k, v) # d else (k', v') # dict_set k v d)"

text \<open>\<^verbatim>\<open>d.update(other)\<close>.\<close>

definition dict_update :: "pydict \<Rightarrow> pydict \<Rightarrow> pydict" where
  "dict_update d other = foldl (\<lambda>acc kv. dict_set (fst kv) (snd kv) acc) d other"

text \<open>
  \<^verbatim>\<open>d[k1][k2] = v\<close>: the inner dictionary is looked up (\<^verbatim>\<open>KeyError\<close> when the key is
  missing, \<^verbatim>\<open>TypeError\<close> when the value takes no item assignment) and changed in place,
  which the outer dictionary sees.
\<close>

definition dict_set2 :: "string \<Rightarrow> string \<Rightarrow> pyval \<Rightarrow> pydict \<Rightarrow> exn + pydict" where
  "dict_set2 k1 k2 v d =
     (case map_of d k1 of
        None \<Rightarrow> Inl (KeyError k1)
      | Some (PDict inner) \<Rightarrow> Inr (dict_set k1 (PDict (dict_set k2 v inner)) d)
      | Some _ \<Rightarrow> Inl (TypeError []))"

definition dict_keys :: "pydict \<Rightarrow> string list" where
  "dict_keys d = map fst d"

text \<open>Reading a value by a path of keys, \<^verbatim>\<open>d[k1][k2]...\<close>, with \<open>None\<close> where Python raises.\<close>

fun lookup_path :: "string list \<Rightarrow> pyval \<Rightarrow> pyval option" where
  "lookup_path [] v = Some v"
| "lookup_path (k # ks) (PDict d) =
     (case map_of d k of None \<Rightarrow> None | Some v \<Rightarrow> lookup_path ks v)"
| "lookup_path (k # ks) _ = None"

text \<open>Truth value of a Python value, as \<^verbatim>\<open>if scrub:\<close> takes it.\<close>

fun truthy :: "pyval \<Rightarrow> bool" where
  "truthy PNone = False"
| "truthy (PBool b) = b"
| "truthy (PInt i) = (i \<noteq> 0)"
| "truthy (PFloat r) = (r \<noteq> 0)"
| "truthy (PStr s) = (s \<noteq> [])"
| "truthy (PList xs) = (xs \<noteq> [])"
| "truthy (PDict d) = (d \<noteq> [])"

subsection \<open>Numbers as text\<close>

text \<open>Digits of a natural number in base \<open>b\<close>, most significant first.\<close>

definition digit_char :: "nat \<Rightarrow> char" where
  "digit_char d = ''0123456789abcdef'' ! (d mod 16)"

function to_base :: "nat \<Rightarrow> nat \<Rightarrow> string" where
  "to_base b n =
     (if n < b \<or> b < 2 then [digit_char n]
      else to_base b (n div b) @ [digit_char (n mod b)])"
  by pat_completeness auto
termination
  by (relation "measure (\<lambda>(b, n). n)") auto

text \<open>
  \<^verbatim>\<open>oct(n)\<close> for a non-negative \<^verbatim>\<open>int\<close>: \<^verbatim>\<open>'0o17'\<close> in Python 3; in Python 2 \<^verbatim>\<open>'017'\<close>,
  and \<^verbatim>\<open>'0'\<close> for zero. \<^verbatim>\<open>hex(n)\<close> for the result of \<^verbatim>\<open>getrandbits\<close>, which is a
  \<^verbatim>\<open>long\<close> in Python 2 and so carries the suffix \<^verbatim>\<open>L\<close> there.
\<close>

definition py_oct :: "bool \<Rightarrow> nat \<Rightarrow> string" where
  "py_oct py3 n =
     (if py3 then ''0o'' @ to_base 8 n
      else if n = 0 then ''0'' else ''0'' @ to_base 8 n)"

definition py_hex_long :: "bool \<Rightarrow> nat \<Rightarrow> string" where
  "py_hex_long py3 n = (if py3 then ''0x'' @ to_base 16 n else ''0x'' @ to_base 16 n @ ''L'')"

definition str_rjust :: "nat \<Rightarrow> char \<Rightarrow> string \<Rightarrow> string" where
  "str_rjust w fill s = replicate (w - length s) fill @ s"

definition lower_char :: "char \<Rightarrow> char" where
  "lower_char c =
     (let n = (of_char c :: nat) in if 65 \<le> n \<and> n \<le> 90 then char_of (n + 32) else c)"

definition str_lower :: "string \<Rightarrow> string" where
  "str_lower s = map lower_char s"

text \<open>\<^verbatim>\<open>s.split()\<close>: the maximal runs of non-whitespace characters.\<close>

definition py_space :: "char \<Rightarrow> bool" where
  "py_space c \<longleftrightarrow> c \<in> set [CHR '' '', tab, CHR 0x0A, CHR 0x0B, CHR 0x0C, CHR 0x0D]"

fun split_ws :: "string \<Rightarrow> string \<Rightarrow> string list" where
  "split_ws cur [] = (if cur = [] then [] else [cur])"
| "split_ws cur (c # cs) =
     (if py_space c then (if cur = [] then split_ws [] cs else cur # split_ws [] cs)
      else split_ws (cur @ [c]) cs)"

definition str_split :: "string \<Rightarrow> string list" where
  "str_split s = split_ws [] s"

subsection \<open>Module constants\<close>

text \<open>
  The module computes its constants once, when it is imported (lines 127 to 214).
  \<open>import_env\<close> is what the interpreter answers to each statement executed then: an
  import or a call that fails is \<open>Inl\<close> of its exception.
\<close>

record module_globals =
  PY_GT_2 :: bool
  INSTANCE_ID :: string
  IS_64BIT :: bool
  HAVE_UCS4 :: bool
  HAVE_READLINE :: bool
  SQLITE_VERSION :: string
  OPENSSL_VERSION :: string
  TKINTER_VERSION :: string
  ZLIB_VERSION :: string
  EXPAT_VERSION :: string
  CPU_COUNT :: int
  HAVE_THREADING :: bool
  HAVE_IPV6 :: bool
  RLIMIT_FDS_SOFT :: int
  RLIMIT_FDS_HARD :: int
  START_TIME_UTC :: string
  START_TIME_UTC_OFFSET :: real

definition ECO_VERSION :: string where
  "ECO_VERSION = ''1.0.0''"

text \<open>The dictionary literal of lines 213 and 214.\<close>

definition START_TIME_INFO :: "module_globals \<Rightarrow> pydict" where
  "START_TIME_INFO g =
     [(''time_utc'', PStr (START_TIME_UTC g)),
      (''time_utc_offset'', PFloat (START_TIME_UTC_OFFSET g))]"

record import_env =
  version_major :: int                        \<comment> \<open>\<^verbatim>\<open>sys.version_info[0]\<close>\<close>
  getrandbits_128 :: nat                      \<comment> \<open>\<^verbatim>\<open>random.getrandbits(128)\<close>\<close>
  calcsize_P :: nat                           \<comment> \<open>\<^verbatim>\<open>struct.calcsize("P")\<close>\<close>
  maxunicode :: "int option"                  \<comment> \<open>\<^verbatim>\<open>sys.maxunicode\<close>, when the attribute exists\<close>
  import_readline :: "exn + unit"
  sqlite_version :: "exn + string"
  import_ssl :: "exn + string option"         \<comment> \<open>the module's \<^verbatim>\<open>OPENSSL_VERSION\<close>, when it has one\<close>
  tk_version_py3 :: "exn + string"            \<comment> \<open>\<^verbatim>\<open>str(tkinter.TkVersion)\<close>\<close>
  tk_version_py2 :: "exn + string"            \<comment> \<open>\<^verbatim>\<open>str(Tkinter.TkVersion)\<close>\<close>
  zlib_version :: "exn + string"
  expat_version :: "exn + string"
  cpu_count :: "exn + int"
  import_threading :: "exn + unit"
  has_ipv6 :: "exn + bool"
  getrlimit_nofile :: "exn + int \<times> int"
  utcnow :: string                            \<comment> \<open>\<^verbatim>\<open>str(datetime.datetime.utcnow())\<close>\<close>
  timezone :: int                             \<comment> \<open>\<^verbatim>\<open>time.timezone\<close>\<close>

text \<open>\<^verbatim>\<open>try: ... except Exception: default\<close> around one fallible statement.\<close>

definition or_default :: "exn + 'a \<Rightarrow> 'a \<Rightarrow> 'a" where
  "or_default r d = (case r of Inl e \<Rightarrow> d | Inr v \<Rightarrow> v)"

definition module_init :: "import_env \<Rightarrow> module_globals" where
  "module_init env =
     (let py_gt_2 = (version_major env > 2) in
      \<lparr> PY_GT_2 = py_gt_2,
        INSTANCE_ID = str_lower (butlast (drop 2 (py_hex_long py_gt_2 (getrandbits_128 env)))),
        IS_64BIT = (calcsize_P env > 4),
        HAVE_UCS4 = ((case maxunicode env of None \<Rightarrow> 0 | Some m \<Rightarrow> m) > 65536),
        HAVE_READLINE = (case import_readline env of Inl e \<Rightarrow> False | Inr u \<Rightarrow> True),
        SQLITE_VERSION = or_default (sqlite_version env) [],
        OPENSSL_VERSION =
          (case import_ssl env of
             Inl e \<Rightarrow> []
           | Inr None \<Rightarrow> ''OpenSSL >0.8.0''
           | Inr (Some v) \<Rightarrow> v),
        TKINTER_VERSION =
          or_default (if py_gt_2 then tk_version_py3 env else tk_version_py2 env) [],
        ZLIB_VERSION = or_default (zlib_version env) [],
        EXPAT_VERSION = or_default (expat_version env) [],
        CPU_COUNT = or_default (cpu_count env) 0,
        HAVE_THREADING = (case import_threading env of Inl e \<Rightarrow> False | Inr u \<Rightarrow> True),
        HAVE_IPV6 = or_default (has_ipv6 env) False,
        RLIMIT_FDS_SOFT = fst (or_default (getrlimit_nofile env) (0, 0)),
        RLIMIT_FDS_HARD = snd (or_default (getrlimit_nofile env) (0, 0)),
        START_TIME_UTC = utcnow env,
        START_TIME_UTC_OFFSET = - real_of_int (timezone env) / 3600 \<rparr>)"

subsection \<open>The process\<close>

text \<open>
  What \<^verbatim>\<open>get_profile\<close> reads and writes: the module constants, the process umask, the
  interpreter's \<^verbatim>\<open>sys\<close> and \<^verbatim>\<open>platform\<close> facts, and the answer of each operating-system
  lookup at the time of the call. A lookup that raises is \<open>Inl\<close> of its exception.
\<close>

record uname_result =
  uname_system :: string
  uname_node :: string
  uname_release :: string
  uname_version :: string
  uname_machine :: string
  uname_processor :: string

record process =
  globals :: module_globals
  umask :: nat
  sys_platform :: string
  sys_argv :: "string list"
  sys_executable :: string
  sys_version :: string
  sys_version_info :: "int \<times> int \<times> int \<times> string \<times> int"
  sys_getfilesystemencoding :: string
  python_compiler :: string
  python_build :: "string \<times> string"
  getuser :: "exn + string"
  gethostname :: "exn + string"
  getfqdn :: "exn + string"
  uname :: uname_result
  linux_distribution :: "exn + string \<times> string \<times> string"
  getcwd :: "exn + string"

text \<open>
  \<^verbatim>\<open>os.umask(m)\<close> sets the process umask to the permission bits of \<open>m\<close> and returns
  the previous umask.
\<close>

definition os_umask :: "nat \<Rightarrow> process \<Rightarrow> nat \<times> process" where
  "os_umask m s = (umask s, s\<lparr>umask := m mod 512\<rparr>)"

subsection \<open>\<^verbatim>\<open>get_python_info\<close>\<close>

definition version_info_list :: "int \<times> int \<times> int \<times> string \<times> int \<Rightarrow> pyval list" where
  "version_info_list vi =
     (case vi of (major, minor, micro, releaselevel, serial) \<Rightarrow>
        [PInt major, PInt minor, PInt micro, PStr releaselevel, PInt serial])"

definition features :: "module_globals \<Rightarrow> pydict" where
  "features g =
     [(''openssl'', PStr (OPENSSL_VERSION g)),
      (''expat'', PStr (EXPAT_VERSION g)),
      (''sqlite'', PStr (SQLITE_VERSION g)),
      (''tkinter'', PStr (TKINTER_VERSION g)),
      (''zlib'', PStr (ZLIB_VERSION g)),
      (''unicode_wide'', PBool (HAVE_UCS4 g)),
      (''readline'', PBool (HAVE_READLINE g)),
      (''64bit'', PBool (IS_64BIT g)),
      (''ipv6'', PBool (HAVE_IPV6 g)),
      (''threading'', PBool (HAVE_THREADING g))]"

definition get_python_info :: "process \<Rightarrow> exn + pydict" where
  "get_python_info s =
     (case escape_shell_args (sys_platform s) (sys_argv s) '' '' None of
        Inl e \<Rightarrow> Inl e
      | Inr argv \<Rightarrow>
          (let ret = [];
               ret = dict_set ''argv'' (PStr argv) ret;
               ret = dict_set ''bin'' (PStr (sys_executable s)) ret;
               ret = dict_set ''version'' (PStr (str_join '' '' (str_split (sys_version s)))) ret;
               ret = dict_set ''compiler'' (PStr (python_compiler s)) ret;
               ret = dict_set ''build_date'' (PStr (snd (python_build s))) ret;
               ret = dict_set ''version_info'' (PList (version_info_list (sys_version_info s))) ret;
               ret = dict_set ''features'' (PDict (features (globals s))) ret
           in Inr ret))"

subsection \<open>\<^verbatim>\<open>get_profile\<close>\<close>

text \<open>Lines 300 to 306: the masking of identifiable information.\<close>

definition scrub_profile :: "pydict \<Rightarrow> exn + pydict" where
  "scrub_profile ret =
     (let ret = dict_set ''cwd'' (PStr ''-'') ret;
          ret = dict_set ''hostname'' (PStr ''-'') ret;
          ret = dict_set ''hostfqdn'' (PStr ''-'') ret
      in case dict_set2 ''python'' ''bin'' (PStr ''-'') ret of
           Inl e \<Rightarrow> Inl e
         | Inr ret \<Rightarrow>
      (case dict_set2 ''python'' ''argv'' (PStr ''-'') ret of
           Inl e \<Rightarrow> Inl e
         | Inr ret \<Rightarrow>
      (case dict_set2 ''uname'' ''node'' (PStr ''-'') ret of
           Inl e \<Rightarrow> Inl e
         | Inr ret \<Rightarrow> Inr (dict_set ''username'' (PStr ''-'') ret))))"

text \<open>Lines 274 to 279: the dictionary of the six fields of \<^verbatim>\<open>platform.uname()\<close>.\<close>

definition uname_dict :: "uname_result \<Rightarrow> pydict" where
  "uname_dict un =
     [(''system'', PStr (uname_system un)),
      (''node'', PStr (uname_node un)),
      (''release'', PStr (uname_release un)),
      (''version'', PStr (uname_version un)),
      (''machine'', PStr (uname_machine un)),
      (''processor'', PStr (uname_processor un))]"

text \<open>
  \<open>kwargs\<close> are the keyword arguments of the call. The result pairs what the call
  returns or raises with the process it leaves behind. The statements outside a
  \<^verbatim>\<open>try\<close> that can raise end the call with their exception.
\<close>

definition get_profile :: "pydict \<Rightarrow> process \<Rightarrow> (exn + pydict) \<times> process" where
  "get_profile kwargs s =
     (let scrub = (case map_of kwargs ''scrub'' of None \<Rightarrow> PBool False | Some v \<Rightarrow> v);
          kwargs = filter (\<lambda>kv. fst kv \<noteq> ''scrub'') kwargs
      in if kwargs \<noteq> [] then (Inl (TypeError (map fst kwargs)), s)
         else
           let ret = [];
               ret = dict_set ''username''
                       (case getuser s of Inl e \<Rightarrow> PStr [] | Inr u \<Rightarrow> PStr u) ret;
               ret = dict_set ''guid'' (PStr (INSTANCE_ID (globals s))) ret
           in case gethostname s of
                Inl e \<Rightarrow> (Inl e, s)
              | Inr hostname \<Rightarrow>
           let ret = dict_set ''hostname'' (PStr hostname) ret
           in case getfqdn s of
                Inl e \<Rightarrow> (Inl e, s)
              | Inr hostfqdn \<Rightarrow>
           let ret = dict_set ''hostfqdn'' (PStr hostfqdn) ret;
               ret = dict_set ''uname'' (PDict (uname_dict (uname s))) ret;
               linux_dist = (case linux_distribution s of
                               Inl e \<Rightarrow> ([], [], [])
                             | Inr d \<Rightarrow> d);
               ret = dict_set ''linux_dist_name'' (PStr (fst linux_dist)) ret;
               ret = dict_set ''linux_dist_version'' (PStr (fst (snd linux_dist))) ret;
               ret = dict_set ''cpu_count'' (PInt (CPU_COUNT (globals s))) ret;
               ret = dict_set ''fs_encoding'' (PStr (sys_getfilesystemencoding s)) ret;
               ret = dict_set ''ulimit_soft'' (PInt (RLIMIT_FDS_SOFT (globals s))) ret;
               ret = dict_set ''ulimit_hard'' (PInt (RLIMIT_FDS_HARD (globals s))) ret
           in case getcwd s of
                Inl e \<Rightarrow> (Inl e, s)
              | Inr cwd \<Rightarrow>
           let ret = dict_set ''cwd'' (PStr cwd) ret;
               (inner, s) = os_umask 2 s;
               (outer, s) = os_umask inner s;
               ret = dict_set ''umask''
                       (PStr (str_rjust 3 CHR ''0''
                                (py_oct (fst (sys_version_info s) > 2) outer))) ret
           in case get_python_info s of
                Inl e \<Rightarrow> (Inl e, s)
              | Inr py \<Rightarrow>
           let ret = dict_set ''python'' (PDict py) ret;
               ret = dict_update ret (START_TIME_INFO (globals s));
               ret = dict_set ''_eco_version'' (PStr ECO_VERSION) ret
           in if truthy scrub then (scrub_profile ret, s) else (Inr ret, s))"

subsection \<open>Reading a profile\<close>

text \<open>
  The keys of the dictionary found at a path of a profile, and the value found at a path
  of what a call returned (nothing when the call raised).
\<close>

definition keys_at :: "string list \<Rightarrow> pydict \<Rightarrow> string list option" where
  "keys_at path p =
     (case lookup_path path (PDict p) of Some (PDict d) \<Rightarrow> Some (dict_keys d) | _ \<Rightarrow> None)"

definition result_at :: "string list \<Rightarrow> exn + pydict \<Rightarrow> pyval option" where
  "result_at path r = (case r of Inl e \<Rightarrow> None | Inr p \<Rightarrow> lookup_path path (PDict p))"

text \<open>The paths of the seven fields that lines 300 to 306 assign.\<close>

definition scrub_paths :: "string list list" where
  "scrub_paths =
     [[''cwd''], [''hostname''], [''hostfqdn''], [''python'', ''bin''], [''python'', ''argv''],
      [''uname'', ''node''], [''username'']]"

text \<open>A process and the moment of its import, used to run the model on concrete input.\<close>

definition example_env :: import_env where
  "example_env =
     \<lparr> version_major = 2, getrandbits_128 = 255, calcsize_P = 8, maxunicode = Some 1114111,
       import_readline = Inr (), sqlite_version = Inr ''3.8.2'',
       import_ssl = Inr (Some ''OpenSSL 1.0.1f''), tk_version_py3 = Inl ImportError,
       tk_version_py2 = Inr ''8.6'', zlib_version = Inr ''1.2.8'',
       expat_version = Inl ImportError, cpu_count = Inr 4, import_threading = Inr (),
       has_ipv6 = Inr True, getrlimit_nofile = Inr (1024, 4096),
       utcnow = ''2016-05-24 07:59:40.473140'', timezone = 28800 \<rparr>"

definition example_process :: process where
  "example_process =
     \<lparr> globals = module_init example_env,
       umask = 63,
       sys_platform = ''linux2'',
       sys_argv = [''boltons/ecoutils.py'', ''a b''],
       sys_executable = ''/usr/bin/python'',
       sys_version = ''2.7.6 (default)  [GCC 4.8.2]'',
       sys_version_info = (2, 7, 6, ''final'', 0),
       sys_getfilesystemencoding = ''UTF-8'',
       python_compiler = ''GCC 4.8.2'',
       python_build = (''default'', ''Jun 22 2015 17:58:13''),
       getuser = Inl (KeyError ''uid''),
       gethostname = Inr ''host'',
       getfqdn = Inr ''host.example.org'',
       uname = \<lparr> uname_system = ''Linux'', uname_node = ''host'',
                 uname_release = ''3.13.0-85-generic'', uname_version = ''#129-Ubuntu'',
                 uname_machine = ''x86_64'', uname_processor = ''x86_64'' \<rparr>,
       linux_distribution = Inr (''Ubuntu'', ''14.04'', ''trusty''),
       getcwd = Inr ''/home/mahmoud/projects/boltons'' \<rparr>"

section \<open>Properties\<close>

subsection \<open>The POSIX quoter\<close>

lemma str_join_Cons: "str_join sep (x # xs) = x @ concat (map (\<lambda>y. sep @ y) xs)"
  by (induction xs arbitrary: x) auto

lemma str_replace_char:
  "str_replace [x] new s = concat (map (\<lambda>c. if c = x then new else [c]) s)"
  by (induction s) auto

lemma args2sh_loop_map:
  "args2sh_loop args acc =
     acc @ map (\<lambda>a. if a = [] then [sq, sq]
                     else if find_sh_unsafe a = None then a
                     else [sq] @ str_replace [sq] sh_quote_repl a @ [sq]) args"
  by (induction args arbitrary: acc) auto

lemma find_sh_unsafe_None: "find_sh_unsafe a = None \<longleftrightarrow> (\<forall>c \<in> set a. sh_safe_char c)"
  by (auto simp: find_sh_unsafe_def find_None_iff)

text \<open>
  Claim C4 (POSIX example). For the arguments \<^verbatim>\<open>a b\<close>, \<^verbatim>\<open>it's\<close>, the empty string and
  \<^verbatim>\<open>plain\<close>, \<^verbatim>\<open>_args2sh\<close> joins the four tokens \<^verbatim>\<open>'a b'\<close>, \<^verbatim>\<open>'it'"'"'s'\<close>, \<^verbatim>\<open>''\<close> and
  \<^verbatim>\<open>plain\<close> with single spaces, whatever \<open>sep\<close> it is given, and the POSIX word
  splitting of that output gives back the four arguments in order.
\<close>

theorem args2sh_posix_example:
  "args2sh [''a b'', [CHR ''i'', CHR ''t'', sq, CHR ''s''], [], ''plain''] sep =
     str_join '' '' [[sq] @ ''a b'' @ [sq],
                     [sq] @ ''it'' @ [sq, dq, sq, dq, sq] @ ''s'' @ [sq],
                     [sq, sq],
                     ''plain'']
   \<and> sh_split (args2sh [''a b'', [CHR ''i'', CHR ''t'', sq, CHR ''s''], [], ''plain''] sep) =
     Some [''a b'', [CHR ''i'', CHR ''t'', sq, CHR ''s''], [], ''plain'']"
  by (simp add: args2sh_def find_sh_unsafe_def sh_safe_char_def sh_quote_repl_def
        sh_split_def sh_word_def sh_blank_def sh_meta_def)

text \<open>
  Claim C7 (POSIX quoting), as amended. Every argument with a character outside the
  safe set is written between single quotes, with each single quote inside it replaced
  by the five characters \<^verbatim>\<open>'"'"'\<close> (close-quote, double-quote, single-quote,
  double-quote, open-quote) and every other character kept; the loop writes one token
  per argument, and the output is the tokens joined by single spaces.
\<close>

theorem args2sh_quotes_unsafe:
  assumes "i < length args" and "\<exists>c \<in> set (args ! i). \<not> sh_safe_char c"
  shows "args2sh_loop args [] ! i =
           [sq] @ concat (map (\<lambda>c. if c = sq then [sq, dq, sq, dq, sq] else [c]) (args ! i)) @ [sq]
         \<and> length (args2sh_loop args []) = length args
         \<and> args2sh args sep = str_join '' '' (args2sh_loop args [])"
proof -
  have ne: "args ! i \<noteq> []" using assms(2) by auto
  have unsafe: "find_sh_unsafe (args ! i) \<noteq> None"
    using assms(2) by (simp add: find_sh_unsafe_None)
  show ?thesis
    using assms(1)
    by (simp add: args2sh_loop_map [of args "[]"] ne unsafe str_replace_char
          sh_quote_repl_def args2sh_def)
qed

text \<open>
  Witness for C7: the second of the arguments \<^verbatim>\<open>plain\<close>, \<^verbatim>\<open>it's\<close>.
\<close>

theorem args2sh_quotes_unsafe_witness:
  "args2sh_loop [''plain'', [CHR ''i'', CHR ''t'', sq, CHR ''s'']] [] ! 1 =
     [sq] @ ''it'' @ [sq, dq, sq, dq, sq] @ ''s'' @ [sq]"
  using args2sh_quotes_unsafe [of 1 "[''plain'', [CHR ''i'', CHR ''t'', sq, CHR ''s'']]" "'' ''"]
  by (simp add: sh_safe_char_def)

text \<open>
  Counterexample to C7 as stated: for the argument that is a single quote, the token is
  the two wrapping quotes around the replacement, seven characters; a replacement of
  four characters would give six.
\<close>

theorem args2sh_quote_replacement_length:
  "args2sh [[sq]] '' '' = [sq, sq, dq, sq, dq, sq, sq] \<and> length (args2sh [[sq]] '' '') \<noteq> 1 + 4 + 1"
  by (simp add: args2sh_def find_sh_unsafe_def sh_safe_char_def sh_quote_repl_def)

text \<open>
  The round trip for every argument list. A safe character is none of the characters
  the word splitting treats specially; the characters of a quoted argument are read back
  one by one, a single quote through the detour \<^verbatim>\<open>'"'"'\<close>.
\<close>

lemma sh_safe_plain:
  assumes "sh_safe_char c"
  shows "c \<noteq> sq" "c \<noteq> dq" "c \<noteq> bslash" "\<not> sh_blank c" "\<not> sh_meta c"
  using assms by (auto simp: sh_safe_char_def sh_blank_def sh_meta_def)

lemma sh_tok_safe:
  "\<forall>c \<in> set a. sh_safe_char c \<Longrightarrow> a \<noteq> [] \<Longrightarrow>
   sh_tok Unquoted cur (a @ rest) = sh_tok Unquoted (Some (sh_word cur @ a)) rest"
proof (induction a arbitrary: cur)
  case Nil
  then show ?case by simp
next
  case (Cons c a)
  then have c: "sh_safe_char c" by simp
  have step: "sh_tok Unquoted cur ((c # a) @ rest) =
              sh_tok Unquoted (Some (sh_word cur @ [c])) (a @ rest)"
    using sh_safe_plain [OF c] by simp
  show ?case
  proof (cases "a = []")
    case True
    with step show ?thesis by simp
  next
    case False
    with Cons.IH [of "Some (sh_word cur @ [c])"] Cons.prems step show ?thesis
      by (simp add: sh_word_def)
  qed
qed

lemma sh_tok_single:
  "sh_tok InSingle (Some w)
     (concat (map (\<lambda>c. if c = sq then [sq, dq, sq, dq, sq] else [c]) a) @ sq # rest) =
   sh_tok Unquoted (Some (w @ a)) rest"
  by (induction a arbitrary: w) (simp_all add: sh_word_def)

lemma sh_tok_token:
  "sh_tok Unquoted None
     ((if a = [] then [sq, sq]
       else if find_sh_unsafe a = None then a
       else [sq] @ str_replace [sq] sh_quote_repl a @ [sq]) @ rest) =
   sh_tok Unquoted (Some a) rest"
proof (cases "a = []")
  case True
  then show ?thesis by (simp add: sh_word_def)
next
  case ne: False
  show ?thesis
  proof (cases "find_sh_unsafe a = None")
    case True
    then have "\<forall>c \<in> set a. sh_safe_char c" by (simp add: find_sh_unsafe_None)
    from sh_tok_safe [OF this ne, of None rest] True ne show ?thesis
      by (simp add: sh_word_def)
  next
    case unsafe: False
    show ?thesis
      using sh_tok_single [of "[]" a rest]
      by (simp add: ne unsafe str_replace_char sh_quote_repl_def sh_word_def)
  qed
qed

lemma sh_tok_tokens:
  "sh_tok Unquoted (Some a)
     (concat (map (\<lambda>y. '' '' @ y)
        (map (\<lambda>a. if a = [] then [sq, sq]
                   else if find_sh_unsafe a = None then a
                   else [sq] @ str_replace [sq] sh_quote_repl a @ [sq]) as))) =
   Some (a # as)"
proof (induction as arbitrary: a)
  case Nil
  show ?case by simp
next
  case (Cons b bs)
  show ?case
    using Cons.IH [of b] sh_tok_token [of b]
    by (simp add: sh_blank_def del: sh_tok.simps(5) sh_tok.simps(6))
qed

text \<open>
  POSIX word splitting of the output of \<^verbatim>\<open>_args2sh\<close> gives back the arguments, for every
  list of arguments.
\<close>

lemma sh_round_trip: "sh_split (args2sh args sep) = Some args"
proof (cases args)
  case Nil
  then show ?thesis by (simp add: sh_split_def args2sh_def)
next
  case (Cons a as)
  show ?thesis
    unfolding sh_split_def args2sh_def Cons args2sh_loop_map [of _ "[]"]
    using sh_tok_token [of a] sh_tok_tokens [of a as]
    by (simp add: str_join_Cons del: sh_tok.simps)
qed

subsection \<open>The Windows quoter\<close>

lemma cmd_chars_append: "cmd_chars (xs @ ys) st = cmd_chars ys (cmd_chars xs st)"
  by (induction xs st rule: cmd_chars.induct) auto

lemma cmd_chars_bs: "cmd_chars (replicate k bslash) (r, b) = (r, b @ replicate k bslash)"
  by (induction k arbitrary: b) (auto simp: replicate_app_Cons_same)

lemma cmd_chars_acc:
  "cmd_chars s (r, b) = (r @ fst (cmd_chars s ([], b)), snd (cmd_chars s ([], b)))"
proof (induction s arbitrary: r b)
  case Nil
  show ?case by simp
next
  case (Cons c cs)
  show ?case
  proof (cases "c = bslash")
    case True
    then show ?thesis using Cons.IH [of r "b @ [c]"] by simp
  next
    case False
    define X where "X = (if c = dq then [replicate (length b * 2) bslash] @ [[bslash, dq]]
                         else (if b \<noteq> [] then list_extend [] b else []) @ [[c]])"
    have step: "cmd_chars (c # cs) (r', b) = cmd_chars cs (r' @ X, [])" for r'
      using False by (simp add: X_def list_extend_def)
    show ?thesis
      unfolding step using Cons.IH [of "r @ X" "[]"] Cons.IH [of "[] @ X" "[]"] by simp
  qed
qed

lemma concat_extend: "concat (list_extend r b) = concat r @ b"
  by (induction b arbitrary: r) (auto simp: list_extend_def)

lemma cmd_chars_last:
  assumes "pre \<noteq> []" and "last pre \<noteq> bslash"
  shows "snd (cmd_chars pre st) = []"
    and "concat (fst (cmd_chars pre st)) \<noteq> []"
    and "last (concat (fst (cmd_chars pre st))) \<noteq> bslash"
proof -
  obtain r b where rb: "cmd_chars (butlast pre) st = (r, b)"
    by (cases "cmd_chars (butlast pre) st")
  have "cmd_chars pre st = cmd_chars [last pre] (r, b)"
    using assms(1) cmd_chars_append [of "butlast pre" "[last pre]" st] rb by simp
  then have eq: "cmd_chars pre st =
      (if last pre = dq then (r @ [replicate (length b * 2) bslash] @ [[bslash, dq]], [])
       else ((if b \<noteq> [] then list_extend r b else r) @ [[last pre]], []))"
    using assms(2) by simp
  show "snd (cmd_chars pre st) = []" by (simp add: eq)
  show "concat (fst (cmd_chars pre st)) \<noteq> []" by (simp add: eq)
  show "last (concat (fst (cmd_chars pre st))) \<noteq> bslash"
    using assms(2) by (simp add: eq)
qed

lemma cmd_chars_nonempty:
  "arg \<noteq> [] \<Longrightarrow> fst (cmd_chars arg st) \<noteq> [] \<or> snd (cmd_chars arg st) \<noteq> []"
proof -
  assume ne: "arg \<noteq> []"
  obtain r b where rb: "cmd_chars (butlast arg) st = (r, b)"
    by (cases "cmd_chars (butlast arg) st")
  have "cmd_chars arg st = cmd_chars [last arg] (r, b)"
    using ne cmd_chars_append [of "butlast arg" "[last arg]" st] rb by simp
  then show ?thesis by simp
qed

lemma cmd_arg_acc:
  "cmd_arg result arg = (if result \<noteq> [] then result @ ['' ''] else []) @ cmd_arg [] arg"
proof -
  obtain p b where pb: "cmd_chars arg ([], []) = (p, b)"
    by (cases "cmd_chars arg ([], [])")
  have *: "cmd_chars arg (r, []) = (r @ p, b)" for r
    using cmd_chars_acc [of arg r "[]"] pb by simp
  show ?thesis
    by (simp add: cmd_arg_def * list_extend_def)
qed

lemma cmd_arg_nonempty: "cmd_arg result arg \<noteq> []"
proof (cases "needquote arg")
  case True
  then show ?thesis
    by (simp add: cmd_arg_def list_extend_def split: prod.splits)
next
  case False
  then have "arg \<noteq> []" by (auto simp: needquote_def)
  from cmd_chars_nonempty [OF this, of "([], [])"]
  have "cmd_arg [] arg \<noteq> []"
    using False by (auto simp: cmd_arg_def list_extend_def split: prod.splits)
  then show ?thesis
    by (subst cmd_arg_acc) simp
qed

lemma args2cmd_loop_concat:
  "result \<noteq> [] \<Longrightarrow>
   concat (args2cmd_loop args result) =
     concat result @ concat (map (\<lambda>a. '' '' @ concat (cmd_arg [] a)) args)"
proof (induction args arbitrary: result)
  case Nil
  show ?case by simp
next
  case (Cons a args)
  have "concat (args2cmd_loop (a # args) result) = concat (args2cmd_loop args (cmd_arg result a))"
    by simp
  also have "\<dots> = concat (cmd_arg result a) @ concat (map (\<lambda>a. '' '' @ concat (cmd_arg [] a)) args)"
    by (rule Cons.IH) (rule cmd_arg_nonempty)
  also have "concat (cmd_arg result a) = concat result @ '' '' @ concat (cmd_arg [] a)"
    using Cons.prems by (subst cmd_arg_acc) simp
  finally show ?case by simp
qed

text \<open>
  The output for a list of arguments is the outputs for its arguments alone, joined by
  single spaces.
\<close>

lemma args2cmd_tokens:
  "args2cmd args sep = str_join '' '' (map (\<lambda>a. args2cmd [a] sep) args)"
proof (cases args)
  case Nil
  then show ?thesis by (simp add: args2cmd_def)
next
  case (Cons a as)
  have "concat (args2cmd_loop as (cmd_arg [] a)) =
          concat (cmd_arg [] a) @ concat (map (\<lambda>a. '' '' @ concat (cmd_arg [] a)) as)"
    by (rule args2cmd_loop_concat) (rule cmd_arg_nonempty)
  then show ?thesis
    by (simp add: Cons args2cmd_def str_join_Cons comp_def)
qed

text \<open>
  Claim C5 (Windows example). For the arguments \<^verbatim>\<open>a b\<close>, \<^verbatim>\<open>c"d\<close>, a single backslash,
  and \<^verbatim>\<open>e\<close> followed by two backslashes, a quote and \<^verbatim>\<open>f\<close>, the output of \<^verbatim>\<open>_args2cmd\<close>
  is the string shown, and parsing it under the backslash and quote convention gives
  back the four arguments in order.
\<close>

theorem args2cmd_windows_example:
  "args2cmd [''a b'', [CHR ''c'', dq, CHR ''d''], [bslash],
             [CHR ''e'', bslash, bslash, dq, CHR ''f'']] sep =
     [dq] @ ''a b'' @ [dq] @ '' '' @ [CHR ''c'', bslash, dq, CHR ''d''] @ '' '' @ [bslash] @ '' ''
       @ [CHR ''e'', bslash, bslash, bslash, bslash, bslash, dq, CHR ''f'']
   \<and> cmd_split (args2cmd [''a b'', [CHR ''c'', dq, CHR ''d''], [bslash],
             [CHR ''e'', bslash, bslash, dq, CHR ''f'']] sep) =
     [''a b'', [CHR ''c'', dq, CHR ''d''], [bslash], [CHR ''e'', bslash, bslash, dq, CHR ''f'']]"
proof -
  have out: "args2cmd [''a b'', [CHR ''c'', dq, CHR ''d''], [bslash],
                       [CHR ''e'', bslash, bslash, dq, CHR ''f'']] sep =
     [dq, CHR ''a'', CHR '' '', CHR ''b'', dq, CHR '' '', CHR ''c'', bslash, dq, CHR ''d'',
      CHR '' '', bslash, CHR '' '',
      CHR ''e'', bslash, bslash, bslash, bslash, bslash, dq, CHR ''f'']"
    by (simp add: args2cmd_def cmd_arg_def needquote_def list_extend_def eval_nat_numeral)
  show ?thesis
    unfolding out by (simp add: cmd_split_def cmd_flush_def sh_word_def)
qed

text \<open>
  Claim C6 (trailing backslashes). Let an argument be \<open>pre\<close> followed by exactly \<open>k\<close>
  backslashes, where \<open>pre\<close> is empty or ends in another character. When the argument is
  quote-wrapped (empty, or containing a space or a tab), its token is an opening quote,
  what the scan writes for \<open>pre\<close>, \<open>2 * k\<close> backslashes and the closing quote; otherwise
  it is what the scan writes for \<open>pre\<close> and \<open>k\<close> backslashes. What the scan writes for
  \<open>pre\<close> does not end in a backslash, so the run counted is the whole run.
\<close>

theorem args2cmd_trailing_backslashes:
  assumes "pre = [] \<or> last pre \<noteq> bslash"
  shows "args2cmd [pre @ replicate k bslash] sep =
           (if needquote (pre @ replicate k bslash)
            then [dq] @ cmd_body pre @ replicate (2 * k) bslash @ [dq]
            else cmd_body pre @ replicate k bslash)
         \<and> (cmd_body pre = [] \<or> last (cmd_body pre) \<noteq> bslash)"
proof -
  have "snd (cmd_chars pre ([], [])) = []"
  proof (cases "pre = []")
    case True
    then show ?thesis by simp
  next
    case False
    with assms show ?thesis by (simp add: cmd_chars_last(1))
  qed
  then obtain p where p: "cmd_chars pre ([], []) = (p, [])"
    by (cases "cmd_chars pre ([], [])") simp
  have run: "cmd_chars (pre @ replicate k bslash) (r, []) = (r @ p, replicate k bslash)" for r
    using cmd_chars_acc [of pre r "[]"] p by (simp add: cmd_chars_append cmd_chars_bs)
  have "concat (cmd_arg [] (pre @ replicate k bslash)) =
          (if needquote (pre @ replicate k bslash)
           then [dq] @ concat p @ replicate (2 * k) bslash @ [dq]
           else concat p @ replicate k bslash)"
    by (simp add: cmd_arg_def run concat_extend mult_2 replicate_add)
  moreover have "concat p = [] \<or> last (concat p) \<noteq> bslash"
  proof (cases "pre = []")
    case True
    with p show ?thesis by simp
  next
    case False
    with assms cmd_chars_last(3) [of pre "([], [])"] p show ?thesis by simp
  qed
  ultimately show ?thesis by (simp add: args2cmd_def cmd_body_def p)
qed

text \<open>
  Witness for C6: \<^verbatim>\<open>a b\<close> followed by two backslashes is wrapped and gets four
  backslashes before the closing quote; \<^verbatim>\<open>ab\<close> followed by two backslashes is not
  wrapped and keeps its two.
\<close>

theorem args2cmd_trailing_backslashes_witness:
  "args2cmd [''a b'' @ replicate 2 bslash] '' '' = [dq] @ ''a b'' @ replicate 4 bslash @ [dq]
   \<and> args2cmd [''ab'' @ replicate 2 bslash] '' '' = ''ab'' @ replicate 2 bslash"
  using args2cmd_trailing_backslashes [of "''a b''" 2 "'' ''"] args2cmd_trailing_backslashes [of "''ab''" 2 "'' ''"]
  by (simp add: needquote_def cmd_body_def list_extend_def)

lemma cmd_tok_bs: "cmd_tok q cur n (replicate m bslash @ xs) = cmd_tok q cur (n + m) xs"
  by (induction m arbitrary: n) simp_all

lemma cmd_tok_flush:
  assumes "rest = [] \<or> (\<exists>r. rest = CHR '' '' # r)" and "cur \<noteq> None \<or> 0 < n"
  shows "cmd_tok False cur n rest = cmd_tok False (Some (sh_word cur @ replicate n bslash)) 0 rest"
  using assms by (auto simp: cmd_flush_def sh_word_def)

text \<open>
  The round trip for every argument list. The parser, \<open>k\<close> backslashes behind the
  scan, reads what the scan writes for the characters \<open>s\<close> and for the end of the
  argument, and ends with the argument read so far extended by those backslashes and
  by \<open>s\<close>.
\<close>

lemma cmd_tok_chars:
  assumes "rest = [] \<or> (\<exists>r. rest = CHR '' '' # r)"
    and "\<not> nq \<Longrightarrow> CHR '' '' \<notin> set s \<and> tab \<notin> set s"
    and "cur \<noteq> None \<or> 0 < k \<or> s \<noteq> []"
  shows "cmd_tok nq cur 0
           (concat (fst (cmd_chars s ([], replicate k bslash)))
            @ snd (cmd_chars s ([], replicate k bslash))
            @ (if nq then snd (cmd_chars s ([], replicate k bslash)) @ [dq] else [])
            @ rest) =
         cmd_tok False (Some (sh_word cur @ replicate k bslash @ s)) 0 rest"
  using assms(2,3)
proof (induction s arbitrary: cur k)
  case Nil
  show ?case
  proof (cases nq)
    case True
    have "cmd_tok True cur 0 (replicate k bslash @ replicate k bslash @ dq # rest) =
          cmd_tok True cur (k + k) (dq # rest)"
      by (simp add: cmd_tok_bs)
    then show ?thesis using True by simp
  next
    case False
    have "cmd_tok False cur 0 (replicate k bslash @ rest) = cmd_tok False cur k rest"
      using cmd_tok_bs [of False cur 0 k rest] by simp
    also have "\<dots> = cmd_tok False (Some (sh_word cur @ replicate k bslash)) 0 rest"
      using Nil.prems(2) by (intro cmd_tok_flush assms(1)) simp
    finally show ?thesis using False by simp
  qed
next
  case (Cons c cs)
  have nosp: "\<not> nq \<Longrightarrow> CHR '' '' \<notin> set cs \<and> tab \<notin> set cs"
    using Cons.prems(1) by simp
  let ?flush = "\<lambda>st. concat (fst st) @ snd st @ (if nq then snd st @ [dq] else []) @ rest"
  show ?case
  proof (cases "c = bslash")
    case True
    have "cmd_chars (c # cs) ([], replicate k bslash) = cmd_chars cs ([], replicate (Suc k) bslash)"
      using True by (simp add: replicate_append_same)
    moreover have "cmd_tok nq cur 0 (?flush (cmd_chars cs ([], replicate (Suc k) bslash))) =
        cmd_tok False (Some (sh_word cur @ replicate (Suc k) bslash @ cs)) 0 rest"
      by (rule Cons.IH [OF nosp]) simp_all
    ultimately show ?thesis using True
      by (cases nq) (simp_all add: replicate_app_Cons_same)
  next
    case nb: False
    show ?thesis
    proof (cases "c = dq")
      case True
      have "cmd_chars (c # cs) ([], replicate k bslash) =
          ([replicate (k * 2) bslash, [bslash, dq]] @ fst (cmd_chars cs ([], [])),
           snd (cmd_chars cs ([], [])))"
        using True cmd_chars_acc [of cs "[replicate (k * 2) bslash, [bslash, dq]]" "[]"] by simp
      then have "cmd_tok nq cur 0 (?flush (cmd_chars (c # cs) ([], replicate k bslash))) =
          cmd_tok nq cur 0 (replicate (k * 2) bslash @ bslash # dq #
             ?flush (cmd_chars cs ([], replicate 0 bslash)))"
        by simp
      also have "\<dots> = cmd_tok nq (Some (sh_word cur @ replicate k bslash @ [dq])) 0
             (?flush (cmd_chars cs ([], replicate 0 bslash)))"
        by (simp add: cmd_tok_bs)
      also have "\<dots> = cmd_tok False
             (Some (sh_word (Some (sh_word cur @ replicate k bslash @ [dq])) @ replicate 0 bslash @ cs))
             0 rest"
        by (rule Cons.IH [OF nosp]) simp_all
      finally show ?thesis using True by (simp add: sh_word_def)
    next
      case nd: False
      have nsp: "\<not> ((c = CHR '' '' \<or> c = tab) \<and> \<not> nq)"
        using Cons.prems(1) by auto
      have "cmd_chars (c # cs) ([], replicate k bslash) =
          (map (\<lambda>x. [x]) (replicate k bslash) @ [[c]] @ fst (cmd_chars cs ([], [])),
           snd (cmd_chars cs ([], [])))"
        using nb nd
          cmd_chars_acc [of cs "(if replicate k bslash \<noteq> [] then list_extend [] (replicate k bslash) else []) @ [[c]]" "[]"]
        by (cases k) (simp_all add: list_extend_def)
      then have "cmd_tok nq cur 0 (?flush (cmd_chars (c # cs) ([], replicate k bslash))) =
          cmd_tok nq cur 0 (replicate k bslash @ c #
             ?flush (cmd_chars cs ([], replicate 0 bslash)))"
        by (simp add: concat_map_singleton)
      also have "\<dots> = cmd_tok nq (Some (sh_word cur @ replicate k bslash @ [c])) 0
             (?flush (cmd_chars cs ([], replicate 0 bslash)))"
        using nb nd nsp by (cases nq) (auto simp: cmd_tok_bs)
      also have "\<dots> = cmd_tok False
             (Some (sh_word (Some (sh_word cur @ replicate k bslash @ [c])) @ replicate 0 bslash @ cs))
             0 rest"
        by (rule Cons.IH [OF nosp]) simp_all
      finally show ?thesis by (simp add: sh_word_def)
    qed
  qed
qed

lemma cmd_tok_token:
  assumes "rest = [] \<or> (\<exists>r. rest = CHR '' '' # r)"
  shows "cmd_tok False None 0 (concat (cmd_arg [] a) @ rest) = cmd_tok False (Some a) 0 rest"
proof -
  obtain p b where pb: "cmd_chars a ([], []) = (p, b)"
    by (cases "cmd_chars a ([], [])")
  have run: "cmd_chars a (r, []) = (r @ p, b)" for r
    using cmd_chars_acc [of a r "[]"] pb by simp
  show ?thesis
  proof (cases "needquote a")
    case True
    have "concat (cmd_arg [] a) = dq # concat p @ b @ b @ [dq]"
      using True by (simp add: cmd_arg_def Let_def run concat_extend)
    moreover have "cmd_tok True (Some []) 0 (concat p @ b @ (if True then b @ [dq] else []) @ rest) =
        cmd_tok False (Some (sh_word (Some []) @ replicate 0 bslash @ a)) 0 rest"
      using cmd_tok_chars [OF assms, of True a "Some []" 0] pb by simp
    ultimately show ?thesis by (simp add: sh_word_def)
  next
    case False
    then have a: "a \<noteq> []" "CHR '' '' \<notin> set a \<and> tab \<notin> set a"
      by (auto simp: needquote_def)
    have "concat (cmd_arg [] a) = concat p @ b"
      using False by (simp add: cmd_arg_def Let_def run concat_extend)
    moreover have "cmd_tok False None 0 (concat p @ b @ (if False then b @ [dq] else []) @ rest) =
        cmd_tok False (Some (sh_word None @ replicate 0 bslash @ a)) 0 rest"
      using cmd_tok_chars [OF assms, of False a None 0] pb a by simp
    ultimately show ?thesis by (simp add: sh_word_def)
  qed
qed

lemma cmd_tok_tokens:
  "cmd_tok False (Some a) 0 (concat (map (\<lambda>y. '' '' @ concat (cmd_arg [] y)) as)) = a # as"
proof (induction as arbitrary: a)
  case Nil
  show ?case by (simp add: cmd_flush_def)
next
  case (Cons b bs)
  have rest: "concat (map (\<lambda>y. '' '' @ concat (cmd_arg [] y)) bs) = []
      \<or> (\<exists>r. concat (map (\<lambda>y. '' '' @ concat (cmd_arg [] y)) bs) = CHR '' '' # r)"
    by (cases bs) simp_all
  show ?case
    using cmd_tok_token [OF rest, of b] Cons.IH [of b]
    by (simp add: cmd_flush_def)
qed

text \<open>
  Parsing the output of \<^verbatim>\<open>_args2cmd\<close> under the backslash and quote convention gives back
  the arguments, for every list of arguments.
\<close>

lemma cmd_round_trip: "cmd_split (args2cmd args sep) = args"
proof (cases args)
  case Nil
  then show ?thesis by (simp add: cmd_split_def args2cmd_def cmd_flush_def)
next
  case (Cons a as)
  have "args2cmd args sep =
      concat (cmd_arg [] a) @ concat (map (\<lambda>y. '' '' @ concat (cmd_arg [] y)) as)"
    unfolding Cons by (subst args2cmd_tokens) (simp add: str_join_Cons args2cmd_def comp_def)
  moreover have rest: "concat (map (\<lambda>y. '' '' @ concat (cmd_arg [] y)) as) = []
      \<or> (\<exists>r. concat (map (\<lambda>y. '' '' @ concat (cmd_arg [] y)) as) = CHR '' '' # r)"
    by (cases as) simp_all
  ultimately show ?thesis
    using cmd_tok_token [OF rest, of a] cmd_tok_tokens [of a as]
    by (simp add: cmd_split_def Cons)
qed

subsection \<open>Style selection\<close>

text \<open>
  Claim C10 (empty style). An empty-string style is treated like no style: the call
  equals the call with \<^verbatim>\<open>None\<close>, which returns the quoting of the platform's default
  style (\<^verbatim>\<open>cmd\<close> on \<^verbatim>\<open>win32\<close>, \<^verbatim>\<open>sh\<close> elsewhere). A call raises exactly when the style
  is a non-empty string other than \<^verbatim>\<open>sh\<close> and \<^verbatim>\<open>cmd\<close>, and then it raises
  \<^verbatim>\<open>ValueError\<close>.
\<close>

theorem escape_shell_args_empty_style:
  "escape_shell_args platform args sep (Some []) = escape_shell_args platform args sep None
   \<and> escape_shell_args platform args sep None =
       Inr (if platform = ''win32'' then args2cmd args sep else args2sh args sep)
   \<and> ((\<exists>e. escape_shell_args platform args sep style = Inl e) \<longleftrightarrow>
        (\<exists>st. style = Some st \<and> st \<noteq> [] \<and> st \<noteq> ''sh'' \<and> st \<noteq> ''cmd''))
   \<and> escape_shell_args platform args sep (Some st) =
       (if st = [] then escape_shell_args platform args sep None
        else if st = ''sh'' then Inr (args2sh args sep)
        else if st = ''cmd'' then Inr (args2cmd args sep)
        else Inl (ValueError st))"
  by (auto simp: escape_shell_args_def default_style_def split: option.splits)

subsection \<open>Module constants\<close>

text \<open>
  Probe isolation: a probe that fails at import sets its own constant to the default
  and changes no other constant.
\<close>

lemma module_init_probe_isolated:
  "module_init (env\<lparr>sqlite_version := Inl e\<rparr>) = (module_init env)\<lparr>SQLITE_VERSION := []\<rparr>"
  "module_init (env\<lparr>import_ssl := Inl e\<rparr>) = (module_init env)\<lparr>OPENSSL_VERSION := []\<rparr>"
  "module_init (env\<lparr>zlib_version := Inl e\<rparr>) = (module_init env)\<lparr>ZLIB_VERSION := []\<rparr>"
  "module_init (env\<lparr>expat_version := Inl e\<rparr>) = (module_init env)\<lparr>EXPAT_VERSION := []\<rparr>"
  "module_init (env\<lparr>tk_version_py3 := Inl e, tk_version_py2 := Inl e\<rparr>) =
     (module_init env)\<lparr>TKINTER_VERSION := []\<rparr>"
  "module_init (env\<lparr>import_readline := Inl e\<rparr>) = (module_init env)\<lparr>HAVE_READLINE := False\<rparr>"
  "module_init (env\<lparr>import_threading := Inl e\<rparr>) = (module_init env)\<lparr>HAVE_THREADING := False\<rparr>"
  "module_init (env\<lparr>has_ipv6 := Inl e\<rparr>) = (module_init env)\<lparr>HAVE_IPV6 := False\<rparr>"
  "module_init (env\<lparr>cpu_count := Inl e\<rparr>) = (module_init env)\<lparr>CPU_COUNT := 0\<rparr>"
  "module_init (env\<lparr>getrlimit_nofile := Inl e\<rparr>) =
     (module_init env)\<lparr>RLIMIT_FDS_SOFT := 0, RLIMIT_FDS_HARD := 0\<rparr>"
  by (simp_all add: module_init_def or_default_def Let_def)

subsection \<open>The profile builder\<close>

text \<open>
  With no style given, the quoter answers in the platform's style and does not raise, so
  \<^verbatim>\<open>get_python_info\<close> always returns its dictionary.
\<close>

lemma escape_default:
  "escape_shell_args p args sep None =
     Inr (if p = ''win32'' then args2cmd args sep else args2sh args sep)"
  by (simp add: escape_shell_args_def default_style_def)

lemma get_python_info_eq:
  "get_python_info s =
     Inr [(''argv'', PStr (if sys_platform s = ''win32'' then args2cmd (sys_argv s) '' ''
                           else args2sh (sys_argv s) '' '')),
          (''bin'', PStr (sys_executable s)),
          (''version'', PStr (str_join '' '' (str_split (sys_version s)))),
          (''compiler'', PStr (python_compiler s)),
          (''build_date'', PStr (snd (python_build s))),
          (''version_info'', PList (version_info_list (sys_version_info s))),
          (''features'', PDict (features (globals s)))]"
  by (simp add: get_python_info_def escape_default)

text \<open>
  The value of a call that gets past its lookups: the profile as the statements build it,
  with \<open>sc\<close> the truth value of the \<^verbatim>\<open>scrub\<close> argument, and the process it leaves
  behind.
\<close>

lemma get_profile_run:
  assumes "filter (\<lambda>kv. fst kv \<noteq> ''scrub'') kwargs = []"
    and "gethostname s = Inr h" and "getfqdn s = Inr f" and "getcwd s = Inr c"
    and "sc = truthy (case map_of kwargs ''scrub'' of None \<Rightarrow> PBool False | Some v \<Rightarrow> v)"
  shows "get_profile kwargs s =
     (Inr [(''username'', PStr (if sc then ''-''
                                else (case getuser s of Inl e \<Rightarrow> [] | Inr u \<Rightarrow> u))),
           (''guid'', PStr (INSTANCE_ID (globals s))),
           (''hostname'', PStr (if sc then ''-'' else h)),
           (''hostfqdn'', PStr (if sc then ''-'' else f)),
           (''uname'', PDict
              [(''system'', PStr (uname_system (uname s))),
               (''node'', PStr (if sc then ''-'' else uname_node (uname s))),
               (''release'', PStr (uname_release (uname s))),
               (''version'', PStr (uname_version (uname s))),
               (''machine'', PStr (uname_machine (uname s))),
               (''processor'', PStr (uname_processor (uname s)))]),
           (''linux_dist_name'',
              PStr (fst (case linux_distribution s of Inl e \<Rightarrow> ([], [], []) | Inr d \<Rightarrow> d))),
           (''linux_dist_version'',
              PStr (fst (snd (case linux_distribution s of
                                Inl e \<Rightarrow> ([], [], []) | Inr d \<Rightarrow> d)))),
           (''cpu_count'', PInt (CPU_COUNT (globals s))),
           (''fs_encoding'', PStr (sys_getfilesystemencoding s)),
           (''ulimit_soft'', PInt (RLIMIT_FDS_SOFT (globals s))),
           (''ulimit_hard'', PInt (RLIMIT_FDS_HARD (globals s))),
           (''cwd'', PStr (if sc then ''-'' else c)),
           (''umask'', PStr (str_rjust 3 CHR ''0'' (py_oct (fst (sys_version_info s) > 2) 2))),
           (''python'', PDict
              [(''argv'', PStr (if sc then ''-''
                                else if sys_platform s = ''win32''
                                  then args2cmd (sys_argv s) '' ''
                                else args2sh (sys_argv s) '' '')),
               (''bin'', PStr (if sc then ''-'' else sys_executable s)),
               (''version'', PStr (str_join '' '' (str_split (sys_version s)))),
               (''compiler'', PStr (python_compiler s)),
               (''build_date'', PStr (snd (python_build s))),
               (''version_info'', PList (version_info_list (sys_version_info s))),
               (''features'', PDict (features (globals s)))]),
           (''time_utc'', PStr (START_TIME_UTC (globals s))),
           (''time_utc_offset'', PFloat (START_TIME_UTC_OFFSET (globals s))),
           (''_eco_version'', PStr ECO_VERSION)],
      s\<lparr>umask := umask s mod 512\<rparr>)"
proof (cases sc)
  case True
  then have t: "truthy (case map_of kwargs ''scrub'' of None \<Rightarrow> PBool False | Some v \<Rightarrow> v)"
    using assms(5) by simp
  show ?thesis
    using assms(1-4) True t
    by (simp add: get_profile_def Let_def os_umask_def get_python_info_eq dict_update_def
          START_TIME_INFO_def uname_dict_def scrub_profile_def dict_set2_def)
next
  case False
  then have t: "\<not> truthy (case map_of kwargs ''scrub'' of None \<Rightarrow> PBool False | Some v \<Rightarrow> v)"
    using assms(5) by simp
  show ?thesis
    using assms(1-4) False t
    by (simp add: get_profile_def Let_def os_umask_def get_python_info_eq dict_update_def
          START_TIME_INFO_def uname_dict_def split: sum.splits)
qed

text \<open>
  The four ways a call ends with an exception: a keyword other than \<^verbatim>\<open>scrub\<close>, and a
  failure of \<^verbatim>\<open>socket.gethostname\<close>, \<^verbatim>\<open>socket.getfqdn\<close> or \<^verbatim>\<open>os.getcwd\<close>, none of
  which sits in a \<^verbatim>\<open>try\<close>. A call returns exactly when none of the four happens.
\<close>

lemma get_profile_raise:
  "filter (\<lambda>kv. fst kv \<noteq> ''scrub'') kwargs \<noteq> [] \<Longrightarrow>
     get_profile kwargs s =
       (Inl (TypeError (map fst (filter (\<lambda>kv. fst kv \<noteq> ''scrub'') kwargs))), s)"
  "filter (\<lambda>kv. fst kv \<noteq> ''scrub'') kwargs = [] \<Longrightarrow> gethostname s = Inl e \<Longrightarrow>
     get_profile kwargs s = (Inl e, s)"
  "filter (\<lambda>kv. fst kv \<noteq> ''scrub'') kwargs = [] \<Longrightarrow> gethostname s = Inr h \<Longrightarrow>
     getfqdn s = Inl e \<Longrightarrow> get_profile kwargs s = (Inl e, s)"
  "filter (\<lambda>kv. fst kv \<noteq> ''scrub'') kwargs = [] \<Longrightarrow> gethostname s = Inr h \<Longrightarrow>
     getfqdn s = Inr f \<Longrightarrow> getcwd s = Inl e \<Longrightarrow> get_profile kwargs s = (Inl e, s)"
  by (simp_all add: get_profile_def Let_def)

lemma get_profile_returns_iff:
  "(\<exists>p. fst (get_profile kwargs s) = Inr p) \<longleftrightarrow>
     filter (\<lambda>kv. fst kv \<noteq> ''scrub'') kwargs = []
     \<and> (\<exists>h. gethostname s = Inr h) \<and> (\<exists>f. getfqdn s = Inr f) \<and> (\<exists>c. getcwd s = Inr c)"
proof (cases "filter (\<lambda>kv. fst kv \<noteq> ''scrub'') kwargs = []")
  case False
  then show ?thesis by (simp add: get_profile_raise(1))
next
  case k: True
  show ?thesis
  proof (cases "gethostname s")
    case (Inl e)
    then show ?thesis using k by (simp add: get_profile_raise(2))
  next
    case h: (Inr h)
    show ?thesis
    proof (cases "getfqdn s")
      case (Inl e)
      then show ?thesis using k h by (simp add: get_profile_raise(3))
    next
      case f: (Inr f)
      show ?thesis
      proof (cases "getcwd s")
        case (Inl e)
        then show ?thesis using k h f by (simp add: get_profile_raise(4))
      next
        case c: (Inr c)
        show ?thesis using k h f c by (simp add: get_profile_run [OF k h f c refl])
      qed
    qed
  qed
qed

lemma get_profile_InrE:
  assumes "get_profile kwargs s = (Inr p, s')"
  obtains h f c where "filter (\<lambda>kv. fst kv \<noteq> ''scrub'') kwargs = []"
    and "gethostname s = Inr h" and "getfqdn s = Inr f" and "getcwd s = Inr c"
proof -
  have "\<exists>p. fst (get_profile kwargs s) = Inr p" using assms by simp
  then show thesis using that by (auto simp: get_profile_returns_iff)
qed

text \<open>
  Leaving \<^verbatim>\<open>scrub\<close> out is the same as passing \<^verbatim>\<open>scrub=False\<close>.
\<close>

lemma get_profile_default_scrub:
  "get_profile [] s = get_profile [(''scrub'', PBool False)] s"
  by (simp add: get_profile_def)

text \<open>
  The \<^verbatim>\<open>umask\<close> field of any returned profile is the rendering of the temporary value 2,
  whatever the process umask; the umask itself is back to its permission bits.
\<close>

lemma get_profile_umask_constant:
  assumes "get_profile kwargs s = (Inr p, s')"
  shows "lookup_path [''umask''] (PDict p) =
           Some (PStr (str_rjust 3 CHR ''0'' (py_oct (2 < fst (sys_version_info s)) 2)))
       \<and> umask s' = umask s mod 512"
proof -
  from assms obtain h f c where k: "filter (\<lambda>kv. fst kv \<noteq> ''scrub'') kwargs = []"
    and h: "gethostname s = Inr h" and f: "getfqdn s = Inr f" and c: "getcwd s = Inr c"
    by (rule get_profile_InrE)
  have p: "p = projr (fst (get_profile kwargs s))" and s': "s' = snd (get_profile kwargs s)"
    using assms by simp_all
  show ?thesis
    unfolding p s' get_profile_run [OF k h f c refl] by simp
qed

text \<open>
  The lookups of the example process that are not in a \<^verbatim>\<open>try\<close> succeed.
\<close>

lemma example_ok:
  "filter (\<lambda>kv. fst kv \<noteq> ''scrub'') [(''scrub'', PBool True)] = []"
  "gethostname example_process = Inr ''host''"
  "getfqdn example_process = Inr ''host.example.org''"
  "getcwd example_process = Inr ''/home/mahmoud/projects/boltons''"
  by (simp_all add: example_process_def)

lemma example_ok0:
  "filter (\<lambda>kv. fst kv \<noteq> ''scrub'') [] = []"
  by simp

lemma scrub_kw:
  "filter (\<lambda>kv. fst kv \<noteq> ''scrub'') [(''scrub'', v)] = []"
  by simp

text \<open>
  Claim C1 (schema stability). Whatever keyword arguments and process a call of
  \<^verbatim>\<open>get_profile\<close> that returns was given, the profile has exactly the seventeen top-level
  keys, its \<^verbatim>\<open>uname\<close> dictionary exactly the six keys, its \<^verbatim>\<open>python\<close> dictionary exactly the
  seven keys and \<^verbatim>\<open>python.features\<close> exactly the ten probe keys, each key once. The key
  sets depend neither on \<^verbatim>\<open>scrub\<close> nor on which lookups or import-time probes failed.
\<close>

theorem get_profile_schema:
  assumes "get_profile kwargs s = (Inr p, s')"
  shows "map_option set (keys_at [] p) =
           Some {''username'', ''guid'', ''hostname'', ''hostfqdn'', ''uname'',
                 ''linux_dist_name'', ''linux_dist_version'', ''cpu_count'', ''fs_encoding'',
                 ''ulimit_soft'', ''ulimit_hard'', ''cwd'', ''umask'', ''python'',
                 ''time_utc'', ''time_utc_offset'', ''_eco_version''}
       \<and> map_option set (keys_at [''uname''] p) =
           Some {''system'', ''node'', ''release'', ''version'', ''machine'', ''processor''}
       \<and> map_option set (keys_at [''python''] p) =
           Some {''argv'', ''bin'', ''version'', ''compiler'', ''build_date'',
                 ''version_info'', ''features''}
       \<and> map_option set (keys_at [''python'', ''features''] p) =
           Some {''openssl'', ''expat'', ''sqlite'', ''tkinter'', ''zlib'', ''unicode_wide'',
                 ''readline'', ''64bit'', ''ipv6'', ''threading''}
       \<and> map_option distinct (keys_at [] p) = Some True
       \<and> map_option distinct (keys_at [''uname''] p) = Some True
       \<and> map_option distinct (keys_at [''python''] p) = Some True
       \<and> map_option distinct (keys_at [''python'', ''features''] p) = Some True"
proof -
  from assms obtain h f c where k: "filter (\<lambda>kv. fst kv \<noteq> ''scrub'') kwargs = []"
    and h: "gethostname s = Inr h" and f: "getfqdn s = Inr f" and c: "getcwd s = Inr c"
    by (rule get_profile_InrE)
  note run = get_profile_run [OF k h f c refl]
  from assms have p: "p = projr (fst (get_profile kwargs s))" by simp
  have top: "keys_at [] p = Some [''username'', ''guid'', ''hostname'', ''hostfqdn'', ''uname'',
                 ''linux_dist_name'', ''linux_dist_version'', ''cpu_count'', ''fs_encoding'',
                 ''ulimit_soft'', ''ulimit_hard'', ''cwd'', ''umask'', ''python'',
                 ''time_utc'', ''time_utc_offset'', ''_eco_version'']"
    unfolding p run by (simp add: keys_at_def dict_keys_def)
  have un: "keys_at [''uname''] p =
      Some [''system'', ''node'', ''release'', ''version'', ''machine'', ''processor'']"
    unfolding p run by (simp add: keys_at_def dict_keys_def)
  have py: "keys_at [''python''] p =
      Some [''argv'', ''bin'', ''version'', ''compiler'', ''build_date'',
                 ''version_info'', ''features'']"
    unfolding p run by (simp add: keys_at_def dict_keys_def)
  have ft: "keys_at [''python'', ''features''] p =
      Some [''openssl'', ''expat'', ''sqlite'', ''tkinter'', ''zlib'', ''unicode_wide'',
                 ''readline'', ''64bit'', ''ipv6'', ''threading'']"
    unfolding p run by (simp add: keys_at_def dict_keys_def features_def)
  show ?thesis
    unfolding top un py ft by simp
qed

text \<open>
  Witness for C1: a scrubbed call on the example process, whose user-name lookup and
  expat probe failed, returns a profile with the ten feature keys.
\<close>

theorem get_profile_schema_witness:
  "map_option set (keys_at [''python'', ''features'']
       (projr (fst (get_profile [(''scrub'', PBool True)] example_process)))) =
     Some {''openssl'', ''expat'', ''sqlite'', ''tkinter'', ''zlib'', ''unicode_wide'',
           ''readline'', ''64bit'', ''ipv6'', ''threading''}"
proof -
  have run: "get_profile [(''scrub'', PBool True)] example_process =
      (Inr (projr (fst (get_profile [(''scrub'', PBool True)] example_process))),
       snd (get_profile [(''scrub'', PBool True)] example_process))"
    by (simp add: get_profile_run [OF example_ok refl])
  show ?thesis
    by (rule get_profile_schema [OF run, THEN conjunct2, THEN conjunct2, THEN conjunct2, THEN conjunct1])
qed

text \<open>
  Claim C2 (scrub masking). If the call with \<^verbatim>\<open>scrub=False\<close> returns a profile, the call
  with \<^verbatim>\<open>scrub=True\<close> on the same process returns one too and leaves the same process
  behind; in it each of the seven paths \<^verbatim>\<open>cwd\<close>, \<^verbatim>\<open>hostname\<close>, \<^verbatim>\<open>hostfqdn\<close>,
  \<^verbatim>\<open>python.bin\<close>, \<^verbatim>\<open>python.argv\<close>, \<^verbatim>\<open>uname.node\<close>, \<^verbatim>\<open>username\<close> holds the string
  \<^verbatim>\<open>"-"\<close>, every path that is none of the seven nor one of their ancestors reads the
  same as in the unscrubbed profile, and the key lists are unchanged.
\<close>

theorem get_profile_scrub_masks:
  assumes "get_profile [(''scrub'', PBool False)] s = (Inr p0, s0)"
  shows "\<exists>p1. get_profile [(''scrub'', PBool True)] s = (Inr p1, s0)
       \<and> (\<forall>path \<in> set scrub_paths. lookup_path path (PDict p1) = Some (PStr ''-''))
       \<and> (\<forall>path. (\<forall>sp \<in> set scrub_paths. \<not> prefix path sp) \<longrightarrow>
             lookup_path path (PDict p1) = lookup_path path (PDict p0))
       \<and> keys_at [] p1 = keys_at [] p0
       \<and> keys_at [''uname''] p1 = keys_at [''uname''] p0
       \<and> keys_at [''python''] p1 = keys_at [''python''] p0"
proof -
  from assms obtain h f c where h: "gethostname s = Inr h" and f: "getfqdn s = Inr f"
    and c: "getcwd s = Inr c"
    by (rule get_profile_InrE)
  have run0: "get_profile [(''scrub'', PBool False)] s =
      (Inr (projr (fst (get_profile [(''scrub'', PBool False)] s))), s\<lparr>umask := umask s mod 512\<rparr>)"
    by (simp add: get_profile_run [OF scrub_kw h f c refl])
  have run1: "get_profile [(''scrub'', PBool True)] s =
      (Inr (projr (fst (get_profile [(''scrub'', PBool True)] s))), s\<lparr>umask := umask s mod 512\<rparr>)"
    by (simp add: get_profile_run [OF scrub_kw h f c refl])
  define p1 where "p1 = projr (fst (get_profile [(''scrub'', PBool True)] s))"
  have p0: "p0 = projr (fst (get_profile [(''scrub'', PBool False)] s))"
    and s0: "s0 = s\<lparr>umask := umask s mod 512\<rparr>"
    using assms run0 by simp_all
  note e0 = p0 [unfolded get_profile_run [OF scrub_kw h f c refl], simplified]
  note e1 = p1_def [unfolded get_profile_run [OF scrub_kw h f c refl], simplified]
  have a: "get_profile [(''scrub'', PBool True)] s = (Inr p1, s0)"
    using run1 by (simp add: p1_def s0)
  have b: "\<forall>path \<in> set scrub_paths. lookup_path path (PDict p1) = Some (PStr ''-'')"
    by (simp add: scrub_paths_def e1)
  have d: "lookup_path path (PDict p1) = lookup_path path (PDict p0)"
    if np: "\<forall>sp \<in> set scrub_paths. \<not> prefix path sp" for path
  proof (cases path)
    case Nil
    from np have "\<not> prefix path [''cwd'']" by (simp add: scrub_paths_def)
    with Nil show ?thesis by simp
  next
    case (Cons k ks)
    show ?thesis
    proof (cases ks)
      case Nil
      with np Cons have "k \<notin> {''cwd'', ''hostname'', ''hostfqdn'', ''username'', ''python'', ''uname''}"
        by (auto simp: scrub_paths_def)
      then show ?thesis
        by (simp add: Cons Nil e0 e1)
    next
      case ks: (Cons k2 ks2)
      have top: "lookup_path (k # k2 # ks2) (PDict p1) = lookup_path (k # k2 # ks2) (PDict p0)"
        if "k \<noteq> ''python''" "k \<noteq> ''uname''"
        using that by (simp add: e0 e1)
      have un: "lookup_path (''uname'' # k2 # ks2) (PDict p1) =
                lookup_path (''uname'' # k2 # ks2) (PDict p0)"
        if "k2 = ''node'' \<longrightarrow> ks2 \<noteq> []"
        using that by (cases ks2) (simp_all add: e0 e1)
      have py: "lookup_path (''python'' # k2 # ks2) (PDict p1) =
                lookup_path (''python'' # k2 # ks2) (PDict p0)"
        if "k2 = ''bin'' \<longrightarrow> ks2 \<noteq> []" "k2 = ''argv'' \<longrightarrow> ks2 \<noteq> []"
        using that by (cases ks2) (simp_all add: e0 e1)
      have n1: "k = ''uname'' \<Longrightarrow> k2 = ''node'' \<Longrightarrow> ks2 \<noteq> []"
        and n2: "k = ''python'' \<Longrightarrow> k2 = ''bin'' \<Longrightarrow> ks2 \<noteq> []"
        and n3: "k = ''python'' \<Longrightarrow> k2 = ''argv'' \<Longrightarrow> ks2 \<noteq> []"
        using np Cons ks by (auto simp: scrub_paths_def)
      show ?thesis
        unfolding Cons ks using top un py n1 n2 n3 by blast
    qed
  qed
  have e: "keys_at [] p1 = keys_at [] p0" "keys_at [''uname''] p1 = keys_at [''uname''] p0"
    "keys_at [''python''] p1 = keys_at [''python''] p0"
    by (simp_all add: keys_at_def dict_keys_def e0 e1)
  show ?thesis
    using a b d e by blast
qed

text \<open>
  Witness for C2 on the example process: the scrubbed profile masks \<^verbatim>\<open>python.argv\<close> and
  keeps \<^verbatim>\<open>python.version\<close>.
\<close>

theorem get_profile_scrub_masks_witness:
  "lookup_path [''python'', ''argv'']
     (PDict (projr (fst (get_profile [(''scrub'', PBool True)] example_process)))) =
     Some (PStr ''-'')
   \<and> lookup_path [''python'', ''version'']
     (PDict (projr (fst (get_profile [(''scrub'', PBool True)] example_process)))) =
     lookup_path [''python'', ''version'']
     (PDict (projr (fst (get_profile [(''scrub'', PBool False)] example_process))))"
proof -
  have run0: "get_profile [(''scrub'', PBool False)] example_process =
      (Inr (projr (fst (get_profile [(''scrub'', PBool False)] example_process))),
       snd (get_profile [(''scrub'', PBool False)] example_process))"
    by (simp add: get_profile_run [OF scrub_kw example_ok(2-4) refl])
  from get_profile_scrub_masks [OF run0] obtain p1 where
    r: "get_profile [(''scrub'', PBool True)] example_process =
          (Inr p1, snd (get_profile [(''scrub'', PBool False)] example_process))"
    and m: "\<forall>path \<in> set scrub_paths. lookup_path path (PDict p1) = Some (PStr ''-'')"
    and k: "\<forall>path. (\<forall>sp \<in> set scrub_paths. \<not> prefix path sp) \<longrightarrow>
             lookup_path path (PDict p1) =
             lookup_path path (PDict (projr (fst (get_profile [(''scrub'', PBool False)] example_process))))"
    by blast
  have p1: "projr (fst (get_profile [(''scrub'', PBool True)] example_process)) = p1"
    by (simp add: r)
  have 1: "lookup_path [''python'', ''argv''] (PDict p1) = Some (PStr ''-'')"
    using m by (simp add: scrub_paths_def)
  have "\<forall>sp \<in> set scrub_paths. \<not> prefix [''python'', ''version''] sp"
    by (simp add: scrub_paths_def)
  with k have 2: "lookup_path [''python'', ''version''] (PDict p1) =
      lookup_path [''python'', ''version'']
        (PDict (projr (fst (get_profile [(''scrub'', PBool False)] example_process))))"
    by blast
  show ?thesis
    unfolding p1 using 1 2 by (rule conjI)
qed

text \<open>
  Claim C3 (umask). The claim asks that the \<^verbatim>\<open>umask\<close> field be the process umask as
  three octal digits and that the umask be restored. Line 292 nests the two calls as
  \<^verbatim>\<open>os.umask(os.umask(2))\<close>: the outer call returns the umask in effect before it, which
  is the temporary value 2. For the example process (Python 2, umask \<^verbatim>\<open>0o077\<close>) the
  field is \<^verbatim>\<open>"002"\<close>, not \<^verbatim>\<open>"077"\<close>; the umask itself is restored.
\<close>

theorem get_profile_umask_field:
  "result_at [''umask''] (fst (get_profile [] example_process)) = Some (PStr ''002'')
   \<and> str_rjust 3 CHR ''0'' (py_oct False (umask example_process)) = ''077''
   \<and> umask (snd (get_profile [] example_process)) = umask example_process"
proof -
  have 1: "str_rjust 3 CHR ''0'' (py_oct False 2) = ''002''"
    by (simp add: str_rjust_def py_oct_def digit_char_def)
  have 2: "str_rjust 3 CHR ''0'' (py_oct False 63) = ''077''"
    by (simp add: str_rjust_def py_oct_def digit_char_def)
  have v: "sys_version_info example_process = (2, 7, 6, ''final'', 0)"
    "umask example_process = 63"
    by (simp_all add: example_process_def)
  show ?thesis
    by (simp add: get_profile_run [OF example_ok0 example_ok(2-4) refl] result_at_def v 1 2)
qed

text \<open>
  Claim C8 (identity stability). Two calls that return, with any keyword arguments, on
  processes that share the module constants: both profiles carry \<^verbatim>\<open>INSTANCE_ID\<close> as
  \<^verbatim>\<open>guid\<close> and the same \<^verbatim>\<open>python.features\<close> dictionary, built from the module constants,
  and neither call changes the module constants.
\<close>

theorem get_profile_identity_stable:
  assumes "get_profile kwargs1 s1 = (Inr p1, s1')"
    and "get_profile kwargs2 s2 = (Inr p2, s2')"
    and "globals s2 = globals s1"
  shows "lookup_path [''guid''] (PDict p1) = Some (PStr (INSTANCE_ID (globals s1)))
       \<and> lookup_path [''guid''] (PDict p2) = lookup_path [''guid''] (PDict p1)
       \<and> lookup_path [''python'', ''features''] (PDict p1) = Some (PDict (features (globals s1)))
       \<and> lookup_path [''python'', ''features''] (PDict p2) =
           lookup_path [''python'', ''features''] (PDict p1)
       \<and> globals s1' = globals s1 \<and> globals s2' = globals s2"
proof -
  from assms(1) obtain h1 f1 cw1 where 1: "filter (\<lambda>kv. fst kv \<noteq> ''scrub'') kwargs1 = []"
    "gethostname s1 = Inr h1" "getfqdn s1 = Inr f1" "getcwd s1 = Inr cw1"
    by (rule get_profile_InrE)
  from assms(2) obtain h2 f2 cw2 where 2: "filter (\<lambda>kv. fst kv \<noteq> ''scrub'') kwargs2 = []"
    "gethostname s2 = Inr h2" "getfqdn s2 = Inr f2" "getcwd s2 = Inr cw2"
    by (rule get_profile_InrE)
  note run1 = get_profile_run [OF 1 refl]
  note run2 = get_profile_run [OF 2 refl]
  have p1: "p1 = projr (fst (get_profile kwargs1 s1))" and s1': "s1' = snd (get_profile kwargs1 s1)"
    using assms(1) by simp_all
  have p2: "p2 = projr (fst (get_profile kwargs2 s2))" and s2': "s2' = snd (get_profile kwargs2 s2)"
    using assms(2) by simp_all
  have g1: "lookup_path [''guid''] (PDict p1) = Some (PStr (INSTANCE_ID (globals s1)))"
    unfolding p1 run1 by simp
  have g2: "lookup_path [''guid''] (PDict p2) = Some (PStr (INSTANCE_ID (globals s2)))"
    unfolding p2 run2 by simp
  have f1: "lookup_path [''python'', ''features''] (PDict p1) = Some (PDict (features (globals s1)))"
    unfolding p1 run1 by simp
  have f2: "lookup_path [''python'', ''features''] (PDict p2) = Some (PDict (features (globals s2)))"
    unfolding p2 run2 by simp
  have st: "globals s1' = globals s1" "globals s2' = globals s2"
    unfolding s1' s2' run1 run2 by simp_all
  show ?thesis
    using g1 g2 f1 f2 st assms(3) by simp
qed

text \<open>
  Witness for C8: a scrubbed call, then an unscrubbed call after the working directory
  changed, report the same \<^verbatim>\<open>guid\<close>.
\<close>

theorem get_profile_identity_stable_witness:
  "lookup_path [''guid'']
     (PDict (projr (fst (get_profile [] (example_process\<lparr>getcwd := Inr ''/tmp''\<rparr>))))) =
   lookup_path [''guid'']
     (PDict (projr (fst (get_profile [(''scrub'', PBool True)] example_process))))"
proof -
  have run1: "get_profile [(''scrub'', PBool True)] example_process =
      (Inr (projr (fst (get_profile [(''scrub'', PBool True)] example_process))),
       snd (get_profile [(''scrub'', PBool True)] example_process))"
    by (simp add: get_profile_run [OF example_ok refl])
  have ok2: "gethostname (example_process\<lparr>getcwd := Inr ''/tmp''\<rparr>) = Inr ''host''"
    "getfqdn (example_process\<lparr>getcwd := Inr ''/tmp''\<rparr>) = Inr ''host.example.org''"
    "getcwd (example_process\<lparr>getcwd := Inr ''/tmp''\<rparr>) = Inr ''/tmp''"
    by (simp_all add: example_process_def)
  have run2: "get_profile [] (example_process\<lparr>getcwd := Inr ''/tmp''\<rparr>) =
      (Inr (projr (fst (get_profile [] (example_process\<lparr>getcwd := Inr ''/tmp''\<rparr>)))),
       snd (get_profile [] (example_process\<lparr>getcwd := Inr ''/tmp''\<rparr>)))"
    by (simp add: get_profile_run [OF example_ok0 ok2 refl])
  have g: "globals (example_process\<lparr>getcwd := Inr ''/tmp''\<rparr>) = globals example_process"
    by simp
  show ?thesis
    by (rule get_profile_identity_stable [OF run1 run2 g, THEN conjunct2, THEN conjunct1])
qed

text \<open>
  Claim C9 (failure isolation). The claim asks that every lookup inside \<^verbatim>\<open>get_profile\<close>
  be failure-isolated, so that only the two input-validation errors propagate. The
  user-name lookup is: the example process has it fail, and the call returns with an
  empty \<^verbatim>\<open>username\<close>. The working-directory lookup is not: with \<^verbatim>\<open>os.getcwd\<close> failing on
  the same process, and no keyword argument given, the call ends with that \<^verbatim>\<open>OSError\<close>.
\<close>

theorem get_profile_getcwd_propagates:
  "fst (get_profile [] (example_process\<lparr>getcwd := Inl OSError\<rparr>)) = Inl OSError
   \<and> getuser example_process = Inl (KeyError ''uid'')
   \<and> result_at [''username''] (fst (get_profile [] example_process)) = Some (PStr [])"
proof -
  have ok: "gethostname (example_process\<lparr>getcwd := Inl OSError\<rparr>) = Inr ''host''"
    "getfqdn (example_process\<lparr>getcwd := Inl OSError\<rparr>) = Inr ''host.example.org''"
    "getcwd (example_process\<lparr>getcwd := Inl OSError\<rparr>) = Inl OSError"
    by (simp_all add: example_process_def)
  have u: "getuser example_process = Inl (KeyError ''uid'')"
    by (simp add: example_process_def)
  show ?thesis
    by (simp add: get_profile_raise(4) [OF example_ok0 ok]
          get_profile_run [OF example_ok0 example_ok(2-4) refl] result_at_def u)
qed

end
